theory Spec2Isabelle
  imports Complex_Main
begin

section \<open>Strings, header maps and the JavaScript helpers the gate relies on\<close>

text \<open>
  A JavaScript string is modelled as a \<^typ>\<open>string\<close>, a list of 8-bit characters. Header
  values are byte strings (every code unit is at most 255) and a URL path name is ASCII, so
  nothing the gate reads is lost. Numbers are modelled as \<^typ>\<open>int\<close>: every number the
  gate computes with is an integer (a millisecond time stamp, a counter, a parsed length).
\<close>

text \<open>ASCII lower-casing, as \<open>Headers\<close> applies it to header names and as a regular
  expression with the \<open>i\<close> flag compares ASCII letters.\<close>

definition lower_char :: "char \<Rightarrow> char" where
  "lower_char c =
     (case map_of (zip ''ABCDEFGHIJKLMNOPQRSTUVWXYZ'' ''abcdefghijklmnopqrstuvwxyz'') c of
        Some d \<Rightarrow> d
      | None \<Rightarrow> c)"

definition lower :: "string \<Rightarrow> string" where
  "lower s = map lower_char s"

text \<open>\<open>String.prototype.startsWith\<close> and \<open>String.prototype.includes\<close>; a regular
  expression that is a plain literal, tested with \<open>test\<close>, is \<open>includes\<close>.\<close>

fun startsWith :: "string \<Rightarrow> string \<Rightarrow> bool" where
  "startsWith s [] = True"
| "startsWith [] (p # ps) = False"
| "startsWith (c # cs) (p # ps) = (c = p \<and> startsWith cs ps)"

fun str_includes :: "string \<Rightarrow> string \<Rightarrow> bool" where
  "str_includes [] pat = (pat = [])"
| "str_includes (c # cs) pat = (startsWith (c # cs) pat \<or> str_includes cs pat)"

text \<open>White space and line terminators of ECMAScript that fit in one byte: TAB, LF, VT, FF,
  CR, SP and NBSP. \<open>trim\<close> and \<open>parseInt\<close> skip them.\<close>

definition is_ws :: "char \<Rightarrow> bool" where
  "is_ws c = (c \<in> set [CHR 0x09, CHR 0x0A, CHR 0x0B, CHR 0x0C, CHR 0x0D, CHR 0x20, CHR 0xA0])"

definition trim :: "string \<Rightarrow> string" where
  "trim s = rev (dropWhile is_ws (rev (dropWhile is_ws s)))"

text \<open>\<open>s.split(sep)\<close> for a one-character separator: never the empty array.\<close>

fun split :: "char \<Rightarrow> string \<Rightarrow> string list" where
  "split sep [] = [[]]"
| "split sep (c # cs) =
     (if c = sep then [] # split sep cs
      else (case split sep cs of
              [] \<Rightarrow> [[c]]
            | w # ws \<Rightarrow> (c # w) # ws))"

text \<open>\<open>Number.prototype.toString\<close> on an integer (below \<open>10^21\<close> in magnitude, where
  JavaScript still prints every digit).\<close>

definition digit_char :: "nat \<Rightarrow> char" where
  "digit_char d = ''0123456789'' ! (d mod 10)"

fun nat_to_string :: "nat \<Rightarrow> string" where
  "nat_to_string n =
     (if n < 10 then [digit_char n] else nat_to_string (n div 10) @ [digit_char (n mod 10)])"

declare nat_to_string.simps [simp del]

definition toString :: "int \<Rightarrow> string" where
  "toString i = (if i < 0 then CHR ''-'' # nat_to_string (nat (- i)) else nat_to_string (nat i))"

text \<open>
  \<open>parseInt(s)\<close> with no radix: skip leading white space, read a sign, read the prefix
  \<open>0x\<close> or \<open>0X\<close> (then the radix is 16, else 10), read the longest run of digits of the
  radix; no digit at all is \<open>NaN\<close>, here \<open>None\<close>. JavaScript rounds the value to a double;
  the gate only compares it with \<open>10 * 1024 * 1024\<close>, and rounding to a double is monotone
  and exact on every integer up to \<open>2^53\<close>, so the comparison of the exact value decides the
  same way.
\<close>

definition digit_val :: "char \<Rightarrow> nat option" where
  "digit_val c =
     map_of (zip ''0123456789abcdefABCDEF''
               [0, 1, 2, 3, 4, 5, 6, 7, 8, 9, 10, 11, 12, 13, 14, 15, 10, 11, 12, 13, 14, 15]) c"

definition is_digit :: "nat \<Rightarrow> char \<Rightarrow> bool" where
  "is_digit radix c = (case digit_val c of None \<Rightarrow> False | Some d \<Rightarrow> d < radix)"

definition digits_value :: "nat \<Rightarrow> string \<Rightarrow> int" where
  "digits_value radix z =
     foldl (\<lambda>acc c. acc * int radix + int (case digit_val c of None \<Rightarrow> 0 | Some d \<Rightarrow> d)) 0 z"

definition parseInt :: "string \<Rightarrow> int option" where
  "parseInt inputString =
     (let s0 = dropWhile is_ws inputString;
          sign = (if startsWith s0 ''-'' then - 1 else 1 :: int);
          s1 = (if startsWith s0 ''+'' \<or> startsWith s0 ''-'' then tl s0 else s0);
          hex = (startsWith s1 ''0x'' \<or> startsWith s1 ''0X'');
          radix = (if hex then 16 else 10 :: nat);
          s2 = (if hex then drop 2 s1 else s1);
          z = takeWhile (is_digit radix) s2
      in if z = [] then None else Some (sign * digits_value radix z))"

text \<open>The \<open>Headers\<close> class: names are case-insensitive, stored lower-cased; \<open>get\<close> of a
  missing name is \<open>null\<close>, here \<open>None\<close>.\<close>

type_synonym headers = "string \<rightharpoonup> string"

definition hget :: "headers \<Rightarrow> string \<Rightarrow> string option" where
  "hget h name = h (lower name)"

definition hset :: "headers \<Rightarrow> string \<Rightarrow> string \<Rightarrow> headers" where
  "hset h name v = h(lower name \<mapsto> v)"

text \<open>A string or \<open>null\<close>/\<open>undefined\<close> used as a condition: the empty string is falsy.\<close>

fun truthy :: "string option \<Rightarrow> bool" where
  "truthy None = False"
| "truthy (Some s) = (s \<noteq> [])"

section \<open>Requests, responses and the rate-limit store\<close>

record request =
  req_method :: string
  pathname :: string
  req_headers :: headers
  ip :: "string option"

datatype body = NoBody | TextBody string | JsonBody string int

record response =
  status :: nat
  resp_headers :: headers
  resp_body :: body

record RateLimitConfig =
  windowMs :: int
  maxRequests :: int
  message :: "string option"

record rl_record =
  count :: int
  resetTime :: int

type_synonym store = "string \<rightharpoonup> rl_record"

subsection \<open>\<open>getClientIP\<close>\<close>

definition getClientIP :: "request \<Rightarrow> string" where
  "getClientIP request =
     (let forwardedFor = hget (req_headers request) ''x-forwarded-for'';
          realIP = hget (req_headers request) ''x-real-ip'';
          cfConnectingIP = hget (req_headers request) ''cf-connecting-ip''
      in if truthy forwardedFor then trim (hd (split (CHR '','') (the forwardedFor)))
         else if truthy realIP then the realIP
         else if truthy cfConnectingIP then the cfConnectingIP
         else if truthy (ip request) then the (ip request)
         else ''unknown'')"

subsection \<open>\<open>rateLimit\<close>\<close>

text \<open>\<open>Math.ceil(d / 1000)\<close> on an integer \<open>d\<close>, with the integer division of HOL, which
  rounds down.\<close>

definition ceil_div_1000 :: "int \<Rightarrow> int" where
  "ceil_div_1000 d = - ((- d) div 1000)"

definition rate_limit_key :: "string \<Rightarrow> string" where
  "rate_limit_key ip_addr = ''rate_limit:'' @ ip_addr"

definition too_many :: "RateLimitConfig \<Rightarrow> rl_record \<Rightarrow> int \<Rightarrow> response" where
  "too_many config record now =
     \<lparr>status = 429,
      resp_headers =
        hset (hset (hset (hset (hset Map.empty
          ''content-type'' ''application/json'')
          ''Retry-After'' (toString (ceil_div_1000 (resetTime record - now))))
          ''X-RateLimit-Limit'' (toString (maxRequests config)))
          ''X-RateLimit-Remaining'' ''0'')
          ''X-RateLimit-Reset'' (toString (resetTime record)),
      resp_body =
        JsonBody (if truthy (message config) then the (message config) else ''Too many requests'')
                 (ceil_div_1000 (resetTime record - now))\<rparr>"

text \<open>
  The closure returned by \<open>rateLimit(config)\<close>, with the module's store and the clock
  reading \<open>Date.now()\<close> made explicit. The result is the response (\<open>null\<close> is \<open>None\<close>)
  and the store afterwards.
\<close>

definition rateLimit :: "RateLimitConfig \<Rightarrow> request \<Rightarrow> int \<Rightarrow> store \<Rightarrow> response option \<times> store" where
  "rateLimit config request now st =
     (let ip_addr = getClientIP request;
          key = rate_limit_key ip_addr
      in case st key of
           None \<Rightarrow> (None, st(key \<mapsto> \<lparr>count = 1, resetTime = now + windowMs config\<rparr>))
         | Some record \<Rightarrow>
             if now > resetTime record
             then (None, st(key \<mapsto> \<lparr>count = 1, resetTime = now + windowMs config\<rparr>))
             else if count record \<ge> maxRequests config
             then (Some (too_many config record now), st)
             else (None, st(key \<mapsto> record\<lparr>count := count record + 1\<rparr>)))"

text \<open>A sequence of calls of one limiter: each request with the clock reading at its call.\<close>

fun rateLimit_run ::
  "RateLimitConfig \<Rightarrow> (request \<times> int) list \<Rightarrow> store \<Rightarrow> response option list \<times> store" where
  "rateLimit_run config [] st = ([], st)"
| "rateLimit_run config ((request, now) # rest) st =
     (case rateLimit config request now st of
        (r, st') \<Rightarrow> (case rateLimit_run config rest st' of (rs, st'') \<Rightarrow> (r # rs, st'')))"

section \<open>Security headers and CORS\<close>

definition join :: "string \<Rightarrow> string list \<Rightarrow> string" where
  "join sep xs = (case xs of [] \<Rightarrow> [] | y # ys \<Rightarrow> foldl (\<lambda>acc x. acc @ sep @ x) y ys)"

text \<open>The apostrophe, for the directives that end in one.\<close>

definition apostrophe :: string where
  "apostrophe = [CHR 0x27]"

definition getSecurityHeaders :: "(string \<times> string) list" where
  "getSecurityHeaders =
     [(''Content-Security-Policy'', join ''; ''
         [''default-src 'self'' @ apostrophe,
          ''script-src 'self' 'unsafe-inline' 'unsafe-eval' https://www.googletagmanager.com https://www.google-analytics.com https://static.hotjar.com'',
          ''style-src 'self' 'unsafe-inline' https://fonts.googleapis.com'',
          ''font-src 'self' https://fonts.gstatic.com'',
          ''img-src 'self' data: https: blob:'',
          ''media-src 'self' https:'',
          ''connect-src 'self' https: wss: ws:'',
          ''object-src 'none'' @ apostrophe,
          ''base-uri 'self'' @ apostrophe,
          ''form-action 'self'' @ apostrophe,
          ''frame-ancestors 'none'' @ apostrophe,
          ''upgrade-insecure-requests'']),
      (''X-Content-Type-Options'', ''nosniff''),
      (''X-Frame-Options'', ''DENY''),
      (''X-XSS-Protection'', ''1; mode=block''),
      (''Referrer-Policy'', ''strict-origin-when-cross-origin''),
      (''Permissions-Policy'', ''camera=(), microphone=(), geolocation=(), interest-cohort=()''),
      (''Strict-Transport-Security'', ''max-age=63072000; includeSubDomains; preload''),
      (''Server'', []),
      (''X-Powered-By'', [])]"

text \<open>\<open>Object.entries(h).forEach(([key, value]) => headers.set(key, value))\<close>.\<close>

definition set_all :: "headers \<Rightarrow> (string \<times> string) list \<Rightarrow> headers" where
  "set_all h kvs = foldl (\<lambda>acc (k, v). hset acc k v) h kvs"

text \<open>The module \<open>env\<close> is not part of the listing: the two settings the gate reads are
  parameters. \<open>NEXT_PUBLIC_APP_URL\<close> may be undefined, here \<open>None\<close>.\<close>

record env =
  NODE_ENV :: string
  NEXT_PUBLIC_APP_URL :: "string option"

text \<open>\<open>[env.NEXT_PUBLIC_APP_URL, 'http://localhost:3000', 'https://localhost:3000'].filter(Boolean)\<close>\<close>

definition allowedOrigins :: "env \<Rightarrow> string list" where
  "allowedOrigins e =
     map the (filter truthy
       [NEXT_PUBLIC_APP_URL e, Some ''http://localhost:3000'', Some ''https://localhost:3000''])"

definition configureCORS :: "env \<Rightarrow> request \<Rightarrow> response \<Rightarrow> response" where
  "configureCORS e request response =
     (let origin = hget (req_headers request) ''origin'';
          h0 = resp_headers response;
          h1 = (if truthy origin \<and> the origin \<in> set (allowedOrigins e)
                then hset h0 ''Access-Control-Allow-Origin'' (the origin) else h0);
          h2 = hset h1 ''Access-Control-Allow-Methods'' ''GET, POST, PUT, DELETE, OPTIONS'';
          h3 = hset h2 ''Access-Control-Allow-Headers'' ''Content-Type, Authorization, X-Requested-With'';
          h4 = hset h3 ''Access-Control-Max-Age'' ''86400'';
          h5 = hset h4 ''Access-Control-Allow-Credentials'' ''true''
      in response\<lparr>resp_headers := h5\<rparr>)"

section \<open>Pattern tests\<close>

text \<open>
  The regular expressions of the gate have three shapes: a literal (\<open>/\.\./\<close>), a literal
  with the \<open>i\<close> flag (\<open>/bot/i\<close>) and two literals around \<open>.*\<close> with the \<open>i\<close> flag
  (\<open>/union.*select/i\<close>). The dot matches every character but a line terminator. With the
  \<open>i\<close> flag and no \<open>u\<close> flag an ASCII letter of the pattern matches exactly its two ASCII
  cases.
\<close>

datatype pattern = Lit string | LitI string | SeqI string string

definition is_line_terminator :: "char \<Rightarrow> bool" where
  "is_line_terminator c = (c = CHR 0x0A \<or> c = CHR 0x0D)"

fun dot_star :: "string \<Rightarrow> string \<Rightarrow> bool" where
  "dot_star [] q = (q = [])"
| "dot_star (c # cs) q = (startsWith (c # cs) q \<or> (\<not> is_line_terminator c \<and> dot_star cs q))"

fun seq_match :: "string \<Rightarrow> string \<Rightarrow> string \<Rightarrow> bool" where
  "seq_match [] p q = (p = [] \<and> q = [])"
| "seq_match (c # cs) p q =
     ((startsWith (c # cs) p \<and> dot_star (drop (length p) (c # cs)) q) \<or> seq_match cs p q)"

fun test :: "pattern \<Rightarrow> string \<Rightarrow> bool" where
  "test (Lit p) s = str_includes s p"
| "test (LitI p) s = str_includes (lower s) (lower p)"
| "test (SeqI p q) s = seq_match (lower s) (lower p) (lower q)"

text \<open>\<open>patterns.some(pattern => pattern.test(s))\<close>.\<close>

definition some_test :: "pattern list \<Rightarrow> string \<Rightarrow> bool" where
  "some_test patterns s = list_ex (\<lambda>pattern. test pattern s) patterns"

definition suspiciousPatterns :: "pattern list" where
  "suspiciousPatterns =
     [LitI ''bot'', LitI ''crawler'', LitI ''spider'', LitI ''scraper'', LitI ''scanner'']"

definition legitimateBots :: "pattern list" where
  "legitimateBots =
     [LitI ''googlebot'', LitI ''bingbot'', LitI ''slurp'', LitI ''duckduckbot'',
      LitI ''facebookexternalhit'', LitI ''twitterbot'', LitI ''linkedinbot'']"

definition suspiciousUrlPatterns :: "pattern list" where
  "suspiciousUrlPatterns =
     [Lit ''..'', Lit ''/etc/passwd'', Lit ''/windows/system32'', LitI ''<script'',
      SeqI ''union'' ''select'', LitI ''eval('']"

section \<open>The gate: \<open>middleware\<close>\<close>

definition apiRateLimit :: RateLimitConfig where
  "apiRateLimit =
     \<lparr>windowMs = 15 * 60 * 1000, maxRequests = 100,
      message = Some ''Too many API requests from this IP''\<rparr>"

definition authRateLimit :: RateLimitConfig where
  "authRateLimit =
     \<lparr>windowMs = 15 * 60 * 1000, maxRequests = 5,
      message = Some ''Too many authentication attempts''\<rparr>"

definition generalRateLimit :: RateLimitConfig where
  "generalRateLimit =
     \<lparr>windowMs = 60 * 1000, maxRequests = 60,
      message = Some ''Too many requests from this IP''\<rparr>"

text \<open>What the gate reads from outside the request: the clock at the call of the limiter,
  the clock at the end, and the identifier of \<open>crypto.randomUUID()\<close>.\<close>

record runtime =
  clock_limit :: int
  clock_response :: int
  uuid :: string

text \<open>\<open>NextResponse.next()\<close> of the framework: status 200, no body, and the marker header
  by which the framework continues to the route.\<close>

definition NextResponse_next :: response where
  "NextResponse_next =
     \<lparr>status = 200, resp_headers = hset Map.empty ''x-middleware-next'' ''1'', resp_body = NoBody\<rparr>"

text \<open>\<open>new NextResponse(text, {status})\<close>: a body that is a string brings its content type,
  and no other header.\<close>

definition text_response :: "string \<Rightarrow> nat \<Rightarrow> response" where
  "text_response txt code =
     \<lparr>status = code,
      resp_headers = hset Map.empty ''content-type'' ''text/plain;charset=UTF-8'',
      resp_body = TextBody txt\<rparr>"

text \<open>The policy of the three branches of the \<open>try\<close> block. Nothing in the limiter throws, so
  the \<open>catch\<close> branch is never taken.\<close>

definition policy_for :: "string \<Rightarrow> RateLimitConfig" where
  "policy_for path =
     (if startsWith path ''/api/auth/'' then authRateLimit
      else if startsWith path ''/api/'' then apiRateLimit
      else generalRateLimit)"

definition isSuspicious :: "string \<Rightarrow> bool" where
  "isSuspicious userAgent =
     (some_test suspiciousPatterns userAgent \<and> \<not> some_test legitimateBots userAgent)"

text \<open>\<open>contentLength && parseInt(contentLength) > 10 * 1024 * 1024\<close>; a comparison with
  \<open>NaN\<close> is false.\<close>

definition too_large :: "string option \<Rightarrow> bool" where
  "too_large contentLength =
     (truthy contentLength \<and>
      (case parseInt (the contentLength) of None \<Rightarrow> False | Some n \<Rightarrow> n > 10 * 1024 * 1024))"

text \<open>
  The gate after the limiter has let the request pass (from ``Security checks for sensitive
  areas'' to the end). The result is the response and the names of the audit events that
  \<open>logSecurityEvent\<close> has written, in order.
\<close>

definition checks :: "env \<Rightarrow> runtime \<Rightarrow> request \<Rightarrow> response \<Rightarrow> response \<times> string list" where
  "checks e rt request response1 =
     (let path = pathname request;
          ip_addr = getClientIP request;
          admin = (startsWith path ''/admin'' \<or> startsWith path ''/moderator'');
          response2 =
            (if admin
             then response1\<lparr>resp_headers :=
                    set_all (resp_headers response1)
                      [(''X-Frame-Options'', ''SAMEORIGIN''),
                       (''Cache-Control'', ''no-store, no-cache, must-revalidate, proxy-revalidate''),
                       (''Pragma'', ''no-cache''),
                       (''Expires'', ''0'')]\<rparr>
             else response1);
          log1 = (if admin then [''admin_access_attempt''] else []);
          ua = hget (req_headers request) ''user-agent'';
          userAgent = (if truthy ua then the ua else []);
          contentLength = hget (req_headers request) ''content-length''
      in if isSuspicious userAgent \<and> \<not> startsWith path ''/api/robots''
              \<and> \<not> startsWith path ''/api/sitemap''
              \<and> (startsWith path ''/admin'' \<or> startsWith path ''/api/'')
         then (text_response ''Access Denied'' 403, log1 @ [''suspicious_bot_blocked''])
         else if too_large contentLength
         then (text_response ''Request Too Large'' 413, log1 @ [''large_request_blocked''])
         else if some_test suspiciousUrlPatterns path
         then (text_response ''Bad Request'' 400, log1 @ [''malicious_url_blocked''])
         else
           (let h1 = hset (resp_headers response2) ''X-Request-ID'' (uuid rt);
                h2 = hset h1 ''X-Response-Time'' (toString (clock_response rt));
                h3 = (if NODE_ENV e = ''development''
                      then hset (hset h2 ''X-Environment'' ''development'') ''X-Debug-IP'' ip_addr
                      else h2)
            in (response2\<lparr>resp_headers := h3\<rparr>, log1)))"

text \<open>The whole gate: the response, the store afterwards and the audit events.\<close>

definition middleware ::
  "env \<Rightarrow> runtime \<Rightarrow> request \<Rightarrow> store \<Rightarrow> response \<times> store \<times> string list" where
  "middleware e rt request st =
     (let path = pathname request;
          response0 =
            NextResponse_next\<lparr>resp_headers :=
              set_all (resp_headers NextResponse_next) getSecurityHeaders\<rparr>;
          response1 =
            (if startsWith path ''/api'' then configureCORS e request response0 else response0)
      in if startsWith path ''/api'' \<and> req_method request = ''OPTIONS''
         then (\<lparr>status = 200, resp_headers = resp_headers response1, resp_body = NoBody\<rparr>, st, [])
         else
           (case rateLimit (policy_for path) request (clock_limit rt) st of
              (Some rateLimitResponse, st') \<Rightarrow> (rateLimitResponse, st', [''rate_limit_exceeded''])
            | (None, st') \<Rightarrow>
                (case checks e rt request response1 of (response, events) \<Rightarrow> (response, st', events))))"

section \<open>Example data\<close>

text \<open>A request built from its method, its path and its headers (names in lower case), with
  no connection-level address.\<close>

definition example_request :: "string \<Rightarrow> string \<Rightarrow> (string \<times> string) list \<Rightarrow> request" where
  "example_request m p hs = \<lparr>req_method = m, pathname = p, req_headers = map_of hs, ip = None\<rparr>"

definition example_env :: env where
  "example_env = \<lparr>NODE_ENV = ''production'', NEXT_PUBLIC_APP_URL = Some ''https://astralcore.io''\<rparr>"

definition example_runtime :: "int \<Rightarrow> runtime" where
  "example_runtime t = \<lparr>clock_limit = t, clock_response = t, uuid = ''00000000-0000-4000-8000-000000000000''\<rparr>"

text \<open>The policy of Scenario A: a window of one minute, two requests.\<close>

definition scenario_policy :: RateLimitConfig where
  "scenario_policy = \<lparr>windowMs = 60000, maxRequests = 2, message = None\<rparr>"

section \<open>Reachable stores\<close>




section \<open>Conditions of the gate, by name\<close>

text \<open>A header or setting that is present and not the empty string.\<close>

fun nonempty :: "string option \<Rightarrow> string option" where
  "nonempty None = None"
| "nonempty (Some s) = (if s = [] then None else Some s)"

text \<open>The preflight branch: an \<open>OPTIONS\<close> request on a path that starts with \<open>/api\<close>.\<close>

definition is_preflight :: "request \<Rightarrow> bool" where
  "is_preflight request = (startsWith (pathname request) ''/api'' \<and> req_method request = ''OPTIONS'')"

text \<open>The response that the gate has prepared when it calls the limiter: the security
  headers and, on a path that starts with \<open>/api\<close>, the CORS headers.\<close>

definition prepared :: "env \<Rightarrow> request \<Rightarrow> response" where
  "prepared e request =
     (let response0 =
            NextResponse_next\<lparr>resp_headers :=
              set_all (resp_headers NextResponse_next) getSecurityHeaders\<rparr>
      in if startsWith (pathname request) ''/api'' then configureCORS e request response0
         else response0)"

text \<open>\<open>request.headers.get('user-agent') || ''\<close>\<close>

definition user_agent :: "request \<Rightarrow> string" where
  "user_agent request =
     (case nonempty (hget (req_headers request) ''user-agent'') of None \<Rightarrow> [] | Some u \<Rightarrow> u)"

text \<open>The three conditions under which the gate answers 403, 413 and 400.\<close>

definition bot_blocked :: "request \<Rightarrow> bool" where
  "bot_blocked request =
     (isSuspicious (user_agent request)
      \<and> \<not> startsWith (pathname request) ''/api/robots''
      \<and> \<not> startsWith (pathname request) ''/api/sitemap''
      \<and> (startsWith (pathname request) ''/admin'' \<or> startsWith (pathname request) ''/api/''))"

definition oversized :: "request \<Rightarrow> bool" where
  "oversized request = too_large (hget (req_headers request) ''content-length'')"

definition malicious_path :: "request \<Rightarrow> bool" where
  "malicious_path request = some_test suspiciousUrlPatterns (pathname request)"

section \<open>The limiter, branch by branch\<close>

lemma rateLimit_fresh:
  "st (rate_limit_key (getClientIP request)) = None \<Longrightarrow>
   rateLimit config request now st =
     (None, st(rate_limit_key (getClientIP request) \<mapsto>
                 \<lparr>count = 1, resetTime = now + windowMs config\<rparr>))"
  by (simp add: rateLimit_def)


lemma rateLimit_increment:
  "st (rate_limit_key (getClientIP request)) = Some rcd \<Longrightarrow> now \<le> resetTime rcd \<Longrightarrow>
   count rcd < maxRequests config \<Longrightarrow>
   rateLimit config request now st =
     (None, st(rate_limit_key (getClientIP request) \<mapsto> rcd\<lparr>count := count rcd + 1\<rparr>))"
  by (simp add: rateLimit_def)

lemma rateLimit_reject:
  "st (rate_limit_key (getClientIP request)) = Some rcd \<Longrightarrow> now \<le> resetTime rcd \<Longrightarrow>
   maxRequests config \<le> count rcd \<Longrightarrow>
   rateLimit config request now st = (Some (too_many config rcd now), st)"
  by (simp add: rateLimit_def)

lemma rateLimit_run_within_budget:
  assumes "st (rate_limit_key a) = Some rcd"
    and "\<forall>(r, t) \<in> set rs. getClientIP r = a \<and> t \<le> resetTime rcd"
    and "count rcd + int (length rs) \<le> maxRequests config"
  shows "rateLimit_run config rs st =
           (replicate (length rs) None,
            st(rate_limit_key a \<mapsto> rcd\<lparr>count := count rcd + int (length rs)\<rparr>))"
  using assms
proof (induction rs arbitrary: st rcd)
  case Nil
  then show ?case by (simp add: map_upd_triv)
next
  case (Cons x rs)
  obtain r t where x: "x = (r, t)" by (cases x)
  from Cons.prems x have ip: "getClientIP r = a" and t: "t \<le> resetTime rcd"
    and lt: "count rcd < maxRequests config"
    by auto
  let ?rec = "rcd\<lparr>count := count rcd + 1\<rparr>"
  let ?st = "st(rate_limit_key a \<mapsto> ?rec)"
  have step: "rateLimit config r t st = (None, ?st)"
    using rateLimit_increment [of st r rcd t config] Cons.prems(1) ip t lt by simp
  have "rateLimit_run config rs ?st =
          (replicate (length rs) None,
           ?st(rate_limit_key a \<mapsto> ?rec\<lparr>count := count ?rec + int (length rs)\<rparr>))"
    using Cons.prems by (intro Cons.IH) auto
  moreover have "?st(rate_limit_key a \<mapsto> ?rec\<lparr>count := count ?rec + int (length rs)\<rparr>) =
        st(rate_limit_key a \<mapsto> rcd\<lparr>count := count rcd + int (length (x # rs))\<rparr>)"
    by (simp only: fun_upd_upd) (simp add: add.assoc)
  ultimately have run_tail: "rateLimit_run config rs ?st =
          (replicate (length rs) None,
           st(rate_limit_key a \<mapsto> rcd\<lparr>count := count rcd + int (length (x # rs))\<rparr>))"
    by (simp only:)
  show ?case unfolding x by (auto simp: step run_tail [unfolded x])
qed

lemma rateLimit_run_append:
  "rateLimit_run config (xs @ ys) st =
     (case rateLimit_run config xs st of
        (rs, st') \<Rightarrow> (case rateLimit_run config ys st' of (rs', st'') \<Rightarrow> (rs @ rs', st'')))"
  by (induction xs arbitrary: st) (auto split: prod.splits)

lemma budget_used:
  assumes "int (Suc n) \<le> maxRequests config" and "0 \<le> windowMs config"
    and "st (rate_limit_key (getClientIP request)) = None"
  shows "snd (rateLimit_run config (replicate (Suc n) (request, now)) st) =
           st(rate_limit_key (getClientIP request) \<mapsto>
                \<lparr>count = int (Suc n), resetTime = now + windowMs config\<rparr>)"
proof -
  let ?key = "rate_limit_key (getClientIP request)"
  let ?rcd = "\<lparr>count = 1, resetTime = now + windowMs config\<rparr>"
  have first: "rateLimit config request now st = (None, st(?key \<mapsto> ?rcd))"
    using assms(3) by (rule rateLimit_fresh)
  have "rateLimit_run config (replicate n (request, now)) (st(?key \<mapsto> ?rcd)) =
          (replicate (length (replicate n (request, now))) None,
           (st(?key \<mapsto> ?rcd))(?key \<mapsto>
              ?rcd\<lparr>count := count ?rcd + int (length (replicate n (request, now)))\<rparr>))"
    using assms(1,2) by (intro rateLimit_run_within_budget) auto
  then show ?thesis by (simp add: first)
qed

section \<open>The budget of one window\<close>

text \<open>
  Claim C1. A client whose key has no record in the store sends \<open>N + 1\<close> requests, where
  \<open>N = maxRequests\<close> of the policy is positive, and none of the later \<open>N\<close> requests comes
  after the end \<open>now + windowMs\<close> of the window that the first one opens. Then the limiter
  lets the first \<open>N\<close> requests pass (it returns \<open>null\<close>) and answers the last one with
  status 429.
\<close>

theorem rateLimit_allows_max_then_rejects:
  assumes "0 < maxRequests config"
    and "st (rate_limit_key (getClientIP request)) = None"
    and "length rest = nat (maxRequests config)"
    and "\<forall>(r, t) \<in> set rest. getClientIP r = getClientIP request \<and> t \<le> now + windowMs config"
  shows "\<exists>response.
           fst (rateLimit_run config ((request, now) # rest) st) =
             replicate (nat (maxRequests config)) None @ [Some response]
           \<and> status response = 429"
proof -
  let ?a = "getClientIP request"
  let ?rec = "\<lparr>count = 1, resetTime = now + windowMs config\<rparr>"
  let ?st1 = "st(rate_limit_key ?a \<mapsto> ?rec)"
  from assms(1,3) have ne: "rest \<noteq> []" by auto
  obtain r t where rt: "last rest = (r, t)" by (cases "last rest")
  from ne rt have rest: "rest = butlast rest @ [(r, t)]" by (simp flip: rt)
  let ?mid = "butlast rest"
  have len: "int (length ?mid) = maxRequests config - 1"
    using assms(1,3) by simp
  have mem: "\<forall>(r, t) \<in> set ?mid. getClientIP r = ?a \<and> t \<le> resetTime ?rec"
    using assms(4) by (auto dest: in_set_butlastD)
  have "(r, t) \<in> set rest" by (subst rest) simp
  with assms(4) have last: "getClientIP r = ?a" "t \<le> now + windowMs config"
    by auto
  have first: "rateLimit config request now st = (None, ?st1)"
    using assms(2) by (rule rateLimit_fresh)
  define rec2 where "rec2 = ?rec\<lparr>count := count ?rec + int (length ?mid)\<rparr>"
  define st2 where "st2 = ?st1(rate_limit_key ?a \<mapsto> rec2)"
  have middle: "rateLimit_run config ?mid ?st1 = (replicate (length ?mid) None, st2)"
    unfolding st2_def rec2_def using mem len by (intro rateLimit_run_within_budget) auto
  have final: "rateLimit config r t st2 = (Some (too_many config rec2 t), st2)"
    using last len by (intro rateLimit_reject) (auto simp: st2_def rec2_def)
  have "rateLimit_run config (?mid @ [(r, t)]) ?st1 =
          (replicate (length ?mid) None @ [Some (too_many config rec2 t)], st2)"
    by (simp add: rateLimit_run_append middle final)
  then have "rateLimit_run config rest ?st1 =
          (replicate (length ?mid) None @ [Some (too_many config rec2 t)], st2)"
    using rest by simp
  then have "fst (rateLimit_run config ((request, now) # rest) st) =
          None # replicate (length ?mid) None @ [Some (too_many config rec2 t)]"
    using first by simp
  moreover have "None # replicate (length ?mid) (None :: response option) =
                 replicate (nat (maxRequests config)) None"
  proof -
    from ne obtain n where n: "length rest = Suc n" by (cases rest) auto
    then show ?thesis by (simp add: assms(3) [symmetric])
  qed
  moreover have "status (too_many config rec2 t) = 429"
    by (simp add: too_many_def)
  ultimately show ?thesis
    by (intro exI [of _ "too_many config rec2 t"]) simp
qed

theorem rateLimit_allows_max_then_rejects_witness:
  "0 < maxRequests scenario_policy
   \<and> Map.empty (rate_limit_key (getClientIP (example_request ''GET'' ''/'' []))) = (None :: rl_record option)
   \<and> length [(example_request ''GET'' ''/'' [], 5), (example_request ''GET'' ''/'' [], 10 :: int)]
        = nat (maxRequests scenario_policy)
   \<and> list_all (\<lambda>(r, t). getClientIP r = getClientIP (example_request ''GET'' ''/'' [])
                           \<and> t \<le> 0 + windowMs scenario_policy)
        [(example_request ''GET'' ''/'' [], 5), (example_request ''GET'' ''/'' [], 10)]
   \<and> (\<exists>response.
          fst (rateLimit_run scenario_policy
                 [(example_request ''GET'' ''/'' [], 0), (example_request ''GET'' ''/'' [], 5),
                  (example_request ''GET'' ''/'' [], 10)] Map.empty) =
            [None, None, Some response]
          \<and> status response = 429)"
  using rateLimit_allows_max_then_rejects
    [of scenario_policy Map.empty "example_request ''GET'' ''/'' []"
        "[(example_request ''GET'' ''/'' [], 5), (example_request ''GET'' ''/'' [], 10)]" 0]
  by (simp add: scenario_policy_def numeral_2_eq_2)

section \<open>The window and \<open>Retry-After\<close>\<close>





lemma rateLimit_Some:
  assumes "rateLimit config request now st = (Some response, st')"
  shows "\<exists>rcd. st (rate_limit_key (getClientIP request)) = Some rcd \<and> now \<le> resetTime rcd
           \<and> maxRequests config \<le> count rcd \<and> response = too_many config rcd now \<and> st' = st"
  using assms unfolding rateLimit_def Let_def
  by (auto split: option.splits if_splits)















section \<open>The client identity\<close>

lemma split_nonempty: "split sep s \<noteq> []"
  by (induction s) (auto split: list.splits)

lemma hd_split: "hd (split sep s) = takeWhile (\<lambda>c. c \<noteq> sep) s"
  by (induction s) (auto split: list.splits simp: split_nonempty)

lemma truthy_nonempty: "truthy x \<longleftrightarrow> nonempty x \<noteq> None"
  by (cases x) auto

lemma nonempty_the: "nonempty x = Some v \<Longrightarrow> the x = v"
  by (cases x) (auto split: if_splits)

text \<open>
  Claim C9, as amended. The client identity is the first comma-separated hop, trimmed, of the
  \<open>x-forwarded-for\<close> header when that header is present and not empty; otherwise the
  \<open>x-real-ip\<close> header when present and not empty; otherwise the \<open>cf-connecting-ip\<close> header
  when present and not empty; otherwise the connection-level address when present and not
  empty; otherwise \<open>unknown\<close>.
\<close>

theorem getClientIP_priority:
  "getClientIP request =
     (case nonempty (hget (req_headers request) ''x-forwarded-for'') of
        Some f \<Rightarrow> trim (takeWhile (\<lambda>c. c \<noteq> CHR '','') f)
      | None \<Rightarrow>
         (case nonempty (hget (req_headers request) ''x-real-ip'') of
            Some v \<Rightarrow> v
          | None \<Rightarrow>
             (case nonempty (hget (req_headers request) ''cf-connecting-ip'') of
                Some v \<Rightarrow> v
              | None \<Rightarrow>
                 (case nonempty (ip request) of
                    Some v \<Rightarrow> v
                  | None \<Rightarrow> ''unknown''))))"
  by (auto simp: getClientIP_def Let_def truthy_nonempty hd_split
           split: option.splits dest: nonempty_the)

theorem getClientIP_priority_witness:
  "getClientIP (example_request ''GET'' ''/''
      [(''x-forwarded-for'', '' 203.0.113.7 , 10.0.0.1''), (''x-real-ip'', ''10.0.0.2'')]) =
     ''203.0.113.7''
   \<and> getClientIP (example_request ''GET'' ''/'' [(''cf-connecting-ip'', ''10.0.0.3'')]) = ''10.0.0.3''"
  using getClientIP_priority [of "example_request ''GET'' ''/''
      [(''x-forwarded-for'', '' 203.0.113.7 , 10.0.0.1''), (''x-real-ip'', ''10.0.0.2'')]"]
    getClientIP_priority [of "example_request ''GET'' ''/'' [(''cf-connecting-ip'', ''10.0.0.3'')]"]
  by (simp add: example_request_def hget_def lower_def lower_char_def trim_def is_ws_def)

text \<open>
  The claim as stated fails on a header that is present and empty: with an empty
  \<open>x-forwarded-for\<close> header, whose first hop is the empty string, the identity is taken from
  \<open>x-real-ip\<close>.
\<close>

theorem getClientIP_priority_counterexample:
  "hget (req_headers (example_request ''GET'' ''/''
      [(''x-forwarded-for'', ''''), (''x-real-ip'', ''10.0.0.2'')])) ''x-forwarded-for'' = Some ''''
   \<and> trim (hd (split (CHR '','') '''')) = ''''
   \<and> getClientIP (example_request ''GET'' ''/''
      [(''x-forwarded-for'', ''''), (''x-real-ip'', ''10.0.0.2'')]) = ''10.0.0.2''"
  by (simp add: getClientIP_def example_request_def hget_def lower_def lower_char_def trim_def)

section \<open>CORS\<close>

lemma set_allowedOrigins:
  "origin \<in> set (allowedOrigins e) \<longleftrightarrow>
     (NEXT_PUBLIC_APP_URL e = Some origin \<and> origin \<noteq> [])
     \<or> origin = ''http://localhost:3000'' \<or> origin = ''https://localhost:3000''"
  by (cases "NEXT_PUBLIC_APP_URL e") (auto simp: allowedOrigins_def)

lemma lower_cors_names:
  "lower ''Access-Control-Allow-Methods'' \<noteq> lower ''Access-Control-Allow-Origin''"
  "lower ''Access-Control-Allow-Headers'' \<noteq> lower ''Access-Control-Allow-Origin''"
  "lower ''Access-Control-Max-Age'' \<noteq> lower ''Access-Control-Allow-Origin''"
  "lower ''Access-Control-Allow-Credentials'' \<noteq> lower ''Access-Control-Allow-Origin''"
  by (simp_all add: lower_def lower_char_def)

text \<open>
  Claim C8. Let the response handed to \<open>configureCORS\<close> carry no
  \<open>Access-Control-Allow-Origin\<close> header, as the response that the gate hands over does not.
  Afterwards the header is present, with the request origin as its value, exactly when the
  request has an origin header and the origin is the configured application URL,
  \<open>http://localhost:3000\<close> or \<open>https://localhost:3000\<close>; for every other origin, and
  with no origin header, the header is absent.
\<close>

theorem configureCORS_allow_origin:
  assumes "hget (resp_headers response) ''Access-Control-Allow-Origin'' = None"
  shows "hget (resp_headers (configureCORS e request response)) ''Access-Control-Allow-Origin'' =
     (case hget (req_headers request) ''origin'' of
        None \<Rightarrow> None
      | Some origin \<Rightarrow>
          if (NEXT_PUBLIC_APP_URL e = Some origin \<and> origin \<noteq> [])
             \<or> origin = ''http://localhost:3000'' \<or> origin = ''https://localhost:3000''
          then Some origin else None)"
proof (cases "hget (req_headers request) ''origin''")
  case None
  then show ?thesis
    using assms lower_cors_names by (simp add: configureCORS_def Let_def hget_def hset_def)
next
  case (Some origin)
  have "truthy (Some origin) \<and> origin \<in> set (allowedOrigins e) \<longleftrightarrow>
     (NEXT_PUBLIC_APP_URL e = Some origin \<and> origin \<noteq> [])
     \<or> origin = ''http://localhost:3000'' \<or> origin = ''https://localhost:3000''"
    by (auto simp: set_allowedOrigins)
  then show ?thesis
    using assms lower_cors_names Some
    by (simp add: configureCORS_def Let_def hget_def hset_def del: truthy.simps)
qed

theorem configureCORS_allow_origin_witness:
  "hget (resp_headers NextResponse_next) ''Access-Control-Allow-Origin'' = None
   \<and> hget (resp_headers (configureCORS example_env
        (example_request ''GET'' ''/api/users'' [(''origin'', ''https://astralcore.io'')])
        NextResponse_next)) ''Access-Control-Allow-Origin'' = Some ''https://astralcore.io''
   \<and> hget (resp_headers (configureCORS example_env
        (example_request ''GET'' ''/api/users'' [(''origin'', ''https://evil.example'')])
        NextResponse_next)) ''Access-Control-Allow-Origin'' = None
   \<and> hget (resp_headers (configureCORS example_env
        (example_request ''GET'' ''/api/users'' []) NextResponse_next))
        ''Access-Control-Allow-Origin'' = None"
proof -
  have h: "hget (resp_headers NextResponse_next) ''Access-Control-Allow-Origin'' = None"
    by (simp add: NextResponse_next_def hget_def hset_def lower_def lower_char_def)
  show ?thesis
    using h configureCORS_allow_origin [OF h, of example_env
            "example_request ''GET'' ''/api/users'' [(''origin'', ''https://astralcore.io'')]"]
      configureCORS_allow_origin [OF h, of example_env
            "example_request ''GET'' ''/api/users'' [(''origin'', ''https://evil.example'')]"]
      configureCORS_allow_origin [OF h, of example_env "example_request ''GET'' ''/api/users'' []"]
    by (simp add: example_env_def example_request_def hget_def lower_def lower_char_def)
qed

section \<open>The gate, stage by stage\<close>

lemma middleware_preflight:
  assumes "is_preflight request"
  shows "fst (snd (middleware e rt request st)) = st"
    and "status (fst (middleware e rt request st)) = 200"
  using assms by (simp_all add: middleware_def is_preflight_def Let_def)

lemma middleware_limited:
  assumes "\<not> is_preflight request"
    and "rateLimit (policy_for (pathname request)) request (clock_limit rt) st = (Some r, st')"
  shows "middleware e rt request st = (r, st', [''rate_limit_exceeded''])"
  using assms by (simp add: middleware_def is_preflight_def Let_def)

lemma middleware_passed:
  assumes "\<not> is_preflight request"
    and "rateLimit (policy_for (pathname request)) request (clock_limit rt) st = (None, st')"
  shows "middleware e rt request st =
           (fst (checks e rt request (prepared e request)), st',
            snd (checks e rt request (prepared e request)))"
  using assms
  by (auto simp add: middleware_def prepared_def is_preflight_def Let_def split: prod.splits)

lemma middleware_store:
  "fst (snd (middleware e rt request st)) =
     (if is_preflight request then st
      else snd (rateLimit (policy_for (pathname request)) request (clock_limit rt) st))"
proof (cases "is_preflight request")
  case True
  then show ?thesis by (simp add: middleware_preflight)
next
  case False
  obtain r st' where rl: "rateLimit (policy_for (pathname request)) request (clock_limit rt) st = (r, st')"
    by (cases "rateLimit (policy_for (pathname request)) request (clock_limit rt) st")
  show ?thesis
  proof (cases r)
    case None
    with middleware_passed [OF False, of rt st st' e] rl False show ?thesis by auto
  next
    case (Some a)
    with middleware_limited [OF False, of rt st a st' e] rl False show ?thesis by simp
  qed
qed

lemma policy_for_cases:
  "policy_for p = authRateLimit \<or> policy_for p = apiRateLimit \<or> policy_for p = generalRateLimit"
  by (simp add: policy_for_def)

lemma policy_for_max: "1 < maxRequests (policy_for p)"
  using policy_for_cases [of p]
  by (auto simp: authRateLimit_def apiRateLimit_def generalRateLimit_def)

lemma rateLimit_other_key:
  "k \<noteq> rate_limit_key (getClientIP request) \<Longrightarrow> snd (rateLimit config request now st) k = st k"
  by (simp add: rateLimit_def Let_def split: option.splits)

lemma over_budget_429:
  assumes "\<not> is_preflight request"
    and "st (rate_limit_key (getClientIP request)) = Some rcd"
    and "clock_limit rt \<le> resetTime rcd"
    and "maxRequests (policy_for (pathname request)) \<le> count rcd"
  shows "status (fst (middleware e rt request st)) = 429"
proof -
  have "rateLimit (policy_for (pathname request)) request (clock_limit rt) st =
          (Some (too_many (policy_for (pathname request)) rcd (clock_limit rt)), st)"
    using assms(2-4) by (rule rateLimit_reject)
  from middleware_limited [OF assms(1) this] show ?thesis
    by (simp add: too_many_def)
qed

section \<open>One counter for the three policies\<close>

text \<open>
  Claim C10. The gate's limiter reads and writes the store only at the key \<open>rate_limit:\<close>
  followed by the client IP, whatever the path and so whatever the policy. Two requests of
  one client that are not preflights, on any two paths: the first finds no record and the
  second comes before the end of the window that the first opens. Then the first request
  stores a record with count 1 whose window is that of the policy of the first path, and the
  second request, under the policy of its own path, finds this record and raises its count
  to 2, with the reset time unchanged.
\<close>

theorem shared_counter_across_policies:
  assumes "getClientIP request2 = getClientIP request1"
    and "st (''rate_limit:'' @ getClientIP request1) = None"
    and "\<not> is_preflight request1" and "\<not> is_preflight request2"
    and "clock_limit rt2 \<le> clock_limit rt1 + windowMs (policy_for (pathname request1))"
  shows "fst (snd (middleware e rt1 request1 st)) (''rate_limit:'' @ getClientIP request1) =
           Some \<lparr>count = 1,
                 resetTime = clock_limit rt1 + windowMs (policy_for (pathname request1))\<rparr>
         \<and> fst (snd (middleware e rt2 request2 (fst (snd (middleware e rt1 request1 st)))))
             (''rate_limit:'' @ getClientIP request1) =
           Some \<lparr>count = 2,
                 resetTime = clock_limit rt1 + windowMs (policy_for (pathname request1))\<rparr>
         \<and> (\<forall>k. k \<noteq> ''rate_limit:'' @ getClientIP request1 \<longrightarrow>
               fst (snd (middleware e rt2 request2 (fst (snd (middleware e rt1 request1 st))))) k
               = st k)"
proof -
  let ?key = "rate_limit_key (getClientIP request1)"
  let ?rcd = "\<lparr>count = 1, resetTime = clock_limit rt1 + windowMs (policy_for (pathname request1))\<rparr>"
  let ?st1 = "fst (snd (middleware e rt1 request1 st))"
  let ?st2 = "fst (snd (middleware e rt2 request2 ?st1))"
  have key: "?key = ''rate_limit:'' @ getClientIP request1" by (simp add: rate_limit_key_def)
  have none: "st ?key = None" using assms(2) key by simp
  have st1: "?st1 = st(?key \<mapsto> ?rcd)"
    using assms(3) rateLimit_fresh [of st request1, OF none] by (simp add: middleware_store)
  have at1: "?st1 (rate_limit_key (getClientIP request2)) = Some ?rcd"
    using assms(1) st1 by simp
  have "rateLimit (policy_for (pathname request2)) request2 (clock_limit rt2) ?st1 =
          (None, ?st1(rate_limit_key (getClientIP request2) \<mapsto> ?rcd\<lparr>count := count ?rcd + 1\<rparr>))"
    using at1 assms(5) policy_for_max [of "pathname request2"]
    by (intro rateLimit_increment) simp_all
  then have st2: "?st2 = ?st1(?key \<mapsto> ?rcd\<lparr>count := 2\<rparr>)"
    using assms(1,4) by (simp add: middleware_store)
  show ?thesis
    unfolding key [symmetric] by (simp add: st2) (simp add: st1)
qed

theorem shared_counter_across_policies_witness:
  "fst (snd (middleware example_env (example_runtime 100000)
          (example_request ''GET'' ''/about'' [])
          (fst (snd (middleware example_env (example_runtime 0)
             (example_request ''POST'' ''/api/auth/login'' []) Map.empty)))))
     ''rate_limit:unknown'' = Some \<lparr>count = 2, resetTime = 900000\<rparr>
   \<and> windowMs (policy_for ''/about'') = 60000
   \<and> windowMs (policy_for ''/api/auth/login'') = 900000"
proof -
  let ?r1 = "example_request ''POST'' ''/api/auth/login'' []"
  let ?r2 = "example_request ''GET'' ''/about'' []"
  have ip: "getClientIP ?r1 = ''unknown''" "getClientIP ?r2 = ''unknown''"
    by (simp_all add: getClientIP_def example_request_def hget_def)
  have pre: "\<not> is_preflight ?r1" "\<not> is_preflight ?r2"
    by (simp_all add: is_preflight_def example_request_def)
  have pol: "windowMs (policy_for ''/about'') = 60000"
    "windowMs (policy_for ''/api/auth/login'') = 900000"
    by (simp_all add: policy_for_def authRateLimit_def generalRateLimit_def)
  have path: "pathname ?r1 = ''/api/auth/login''" by (simp add: example_request_def)
  have "clock_limit (example_runtime 100000) \<le>
          clock_limit (example_runtime 0) + windowMs (policy_for (pathname ?r1))"
    unfolding path pol by (simp add: example_runtime_def)
  from shared_counter_across_policies [of ?r2 ?r1 Map.empty "example_runtime 100000"
      "example_runtime 0" example_env, OF _ _ pre this]
  show ?thesis unfolding ip path pol by (simp add: example_runtime_def)
qed

section \<open>The checks after the limiter\<close>

lemma user_agent_eq:
  "(if truthy (hget (req_headers request) ''user-agent'')
    then the (hget (req_headers request) ''user-agent'') else []) = user_agent request"
  by (cases "hget (req_headers request) ''user-agent''") (auto simp: user_agent_def)

lemma checks_bot:
  "bot_blocked request \<Longrightarrow>
   fst (checks e rt request response1) = text_response ''Access Denied'' 403"
  unfolding checks_def Let_def user_agent_eq bot_blocked_def by simp

lemma checks_oversized:
  "\<not> bot_blocked request \<Longrightarrow> oversized request \<Longrightarrow>
   fst (checks e rt request response1) = text_response ''Request Too Large'' 413"
  unfolding checks_def Let_def user_agent_eq bot_blocked_def oversized_def by auto

lemma checks_malicious:
  "\<not> bot_blocked request \<Longrightarrow> \<not> oversized request \<Longrightarrow> malicious_path request \<Longrightarrow>
   fst (checks e rt request response1) = text_response ''Bad Request'' 400"
  unfolding checks_def Let_def user_agent_eq bot_blocked_def oversized_def malicious_path_def
  by auto

lemma checks_allowed:
  "\<not> bot_blocked request \<Longrightarrow> \<not> oversized request \<Longrightarrow> \<not> malicious_path request \<Longrightarrow>
   status (fst (checks e rt request response1)) = status response1"
  unfolding checks_def Let_def user_agent_eq bot_blocked_def oversized_def malicious_path_def
  by auto

lemma status_text_response: "status (text_response txt code) = code"
  by (simp add: text_response_def)

lemma status_prepared: "status (prepared e request) = 200"
  by (simp add: prepared_def Let_def configureCORS_def NextResponse_next_def)

lemma checks_status:
  "status (fst (checks e rt request (prepared e request))) =
     (if bot_blocked request then 403 else if oversized request then 413
      else if malicious_path request then 400 else 200)"
  by (simp add: checks_bot checks_oversized checks_malicious checks_allowed
        status_text_response status_prepared)

lemma gate_status:
  assumes "\<not> is_preflight request"
    and "fst (rateLimit (policy_for (pathname request)) request (clock_limit rt) st) = None"
  shows "status (fst (middleware e rt request st)) =
     (if bot_blocked request then 403 else if oversized request then 413
      else if malicious_path request then 400 else 200)"
proof -
  obtain st' where "rateLimit (policy_for (pathname request)) request (clock_limit rt) st = (None, st')"
    using assms(2) by (cases "rateLimit (policy_for (pathname request)) request (clock_limit rt) st") auto
  from middleware_passed [OF assms(1) this] show ?thesis by (simp add: checks_status)
qed

lemma isSuspicious_iff:
  "isSuspicious ua \<longleftrightarrow>
     (\<exists>p \<in> set [''bot'', ''crawler'', ''spider'', ''scraper'', ''scanner''].
        str_includes (lower ua) p)
     \<and> \<not> (\<exists>p \<in> set [''googlebot'', ''bingbot'', ''slurp'', ''duckduckbot'',
                      ''facebookexternalhit'', ''twitterbot'', ''linkedinbot''].
             str_includes (lower ua) p)"
  by (simp add: isSuspicious_def some_test_def suspiciousPatterns_def legitimateBots_def
        lower_def lower_char_def)

section \<open>The bot check\<close>

text \<open>
  Claim C7, as amended. A request reaches the bot check when it is not a preflight, which is
  answered 200, and the limiter lets it pass, where a client over its budget is answered 429.
  The gate then answers 403 exactly when the user agent matches one of the
  signatures bot, crawler, spider, scraper, scanner (in any case of the letters), matches
  none of the legitimate crawlers, the path starts with neither \<open>/api/robots\<close> nor
  \<open>/api/sitemap\<close>, and the path starts with \<open>/admin\<close> or \<open>/api/\<close>; the response is
  then \<open>Access Denied\<close>. So \<open>Googlebot\<close> on \<open>/admin/x\<close> is allowed and
  \<open>curl-scraper/1.0\<close> on \<open>/api/users\<close> is answered 403, when the request is not a preflight
  and the client is within its budget.
\<close>

theorem bot_check_blocks_iff:
  assumes "\<not> is_preflight request"
    and "fst (rateLimit (policy_for (pathname request)) request (clock_limit rt) st) = None"
  shows "(status (fst (middleware e rt request st)) = 403 \<longleftrightarrow>
     (\<exists>p \<in> set [''bot'', ''crawler'', ''spider'', ''scraper'', ''scanner''].
        str_includes (lower (user_agent request)) p)
     \<and> \<not> (\<exists>p \<in> set [''googlebot'', ''bingbot'', ''slurp'', ''duckduckbot'',
                      ''facebookexternalhit'', ''twitterbot'', ''linkedinbot''].
             str_includes (lower (user_agent request)) p)
     \<and> \<not> startsWith (pathname request) ''/api/robots''
     \<and> \<not> startsWith (pathname request) ''/api/sitemap''
     \<and> (startsWith (pathname request) ''/admin'' \<or> startsWith (pathname request) ''/api/''))
   \<and> (status (fst (middleware e rt request st)) = 403 \<longleftrightarrow>
        fst (middleware e rt request st) = text_response ''Access Denied'' 403)"
proof -
  have blocked: "status (fst (middleware e rt request st)) = 403 \<longleftrightarrow> bot_blocked request"
    using gate_status [OF assms] by simp
  obtain st' where "rateLimit (policy_for (pathname request)) request (clock_limit rt) st = (None, st')"
    using assms(2) by (cases "rateLimit (policy_for (pathname request)) request (clock_limit rt) st") auto
  from middleware_passed [OF assms(1) this]
  have "bot_blocked request \<Longrightarrow> fst (middleware e rt request st) = text_response ''Access Denied'' 403"
    by (simp add: checks_bot)
  then have denied: "status (fst (middleware e rt request st)) = 403 \<longleftrightarrow>
        fst (middleware e rt request st) = text_response ''Access Denied'' 403"
    using blocked by (auto simp: status_text_response)
  show ?thesis
    unfolding denied [symmetric] unfolding blocked bot_blocked_def isSuspicious_iff by simp
qed

lemma example_fresh_limiter:
  "fst (rateLimit config (example_request m p hs) now Map.empty) = None"
  by (simp add: rateLimit_def Let_def)

lemma example_user_agent:
  "user_agent (example_request m p [(''user-agent'', ua)]) = ua"
  by (cases ua) (simp_all add: user_agent_def example_request_def hget_def lower_def lower_char_def)

theorem bot_check_blocks_iff_witness:
  "status (fst (middleware example_env (example_runtime 0)
      (example_request ''GET'' ''/api/users'' [(''user-agent'', ''curl-scraper/1.0'')]) Map.empty))
     = 403
   \<and> status (fst (middleware example_env (example_runtime 0)
      (example_request ''GET'' ''/admin/x'' [(''user-agent'', ''Googlebot'')]) Map.empty))
     = 200"
proof -
  let ?d = "example_request ''GET'' ''/api/users'' [(''user-agent'', ''curl-scraper/1.0'')]"
  let ?c = "example_request ''GET'' ''/admin/x'' [(''user-agent'', ''Googlebot'')]"
  have pre: "\<not> is_preflight ?d" "\<not> is_preflight ?c"
    by (simp_all add: is_preflight_def example_request_def)
  have path: "pathname ?d = ''/api/users''" "pathname ?c = ''/admin/x''"
    by (simp_all add: example_request_def)
  have "status (fst (middleware example_env (example_runtime 0) ?d Map.empty)) = 403"
    using bot_check_blocks_iff [where e = example_env and rt = "example_runtime 0" and st = Map.empty,
            OF pre(1) example_fresh_limiter]
    unfolding example_user_agent path by (simp add: lower_def lower_char_def)
  moreover have "status (fst (middleware example_env (example_runtime 0) ?c Map.empty)) \<noteq> 403"
    using bot_check_blocks_iff [where e = example_env and rt = "example_runtime 0" and st = Map.empty,
            OF pre(2) example_fresh_limiter]
    unfolding example_user_agent path by (simp add: lower_def lower_char_def)
  moreover have "\<not> oversized ?c"
    by (simp add: oversized_def too_large_def example_request_def hget_def lower_def lower_char_def)
  moreover have "\<not> malicious_path ?c"
    unfolding malicious_path_def path
    by (simp add: some_test_def suspiciousUrlPatterns_def lower_def lower_char_def)
  ultimately show ?thesis
    using gate_status [where e = example_env and rt = "example_runtime 0" and st = Map.empty,
            OF pre(2) example_fresh_limiter]
    by (simp split: if_splits)
qed

text \<open>
  The claim as stated fails for a request that does not reach the bot check. The scraper of
  Scenario D, which meets the four conditions, is answered 200 on \<open>OPTIONS /api/users\<close>, a
  preflight, and 429 on \<open>GET /api/users\<close> once it has used up the 100 requests of the API
  policy.
\<close>

theorem bot_check_blocks_iff_counterexample:
  "bot_blocked (example_request ''OPTIONS'' ''/api/users'' [(''user-agent'', ''curl-scraper/1.0'')])
   \<and> status (fst (middleware example_env (example_runtime 0)
        (example_request ''OPTIONS'' ''/api/users'' [(''user-agent'', ''curl-scraper/1.0'')])
        Map.empty)) = 200
   \<and> bot_blocked (example_request ''GET'' ''/api/users'' [(''user-agent'', ''curl-scraper/1.0'')])
   \<and> status (fst (middleware example_env (example_runtime 1000)
        (example_request ''GET'' ''/api/users'' [(''user-agent'', ''curl-scraper/1.0'')])
        (snd (rateLimit_run apiRateLimit
           (replicate 100
              (example_request ''GET'' ''/api/users'' [(''user-agent'', ''curl-scraper/1.0'')], 0))
           Map.empty)))) = 429"
proof -
  let ?o = "example_request ''OPTIONS'' ''/api/users'' [(''user-agent'', ''curl-scraper/1.0'')]"
  let ?g = "example_request ''GET'' ''/api/users'' [(''user-agent'', ''curl-scraper/1.0'')]"
  have path: "pathname ?o = ''/api/users''" "pathname ?g = ''/api/users''"
    by (simp_all add: example_request_def)
  have bot: "bot_blocked ?o" "bot_blocked ?g"
    unfolding bot_blocked_def isSuspicious_iff example_user_agent path
    by (simp_all add: lower_def lower_char_def)
  have "is_preflight ?o" by (simp add: is_preflight_def example_request_def)
  then have ok: "status (fst (middleware example_env (example_runtime 0) ?o Map.empty)) = 200"
    by (rule middleware_preflight(2))
  have pre: "\<not> is_preflight ?g" by (simp add: is_preflight_def example_request_def)
  have st: "snd (rateLimit_run apiRateLimit (replicate 100 (?g, 0)) Map.empty) =
      Map.empty(rate_limit_key (getClientIP ?g) \<mapsto> \<lparr>count = 100, resetTime = 900000\<rparr>)"
    using budget_used [of 99 apiRateLimit Map.empty ?g 0]
    by (simp add: apiRateLimit_def)
  have "maxRequests (policy_for (pathname ?g)) \<le> count \<lparr>count = 100, resetTime = 900000\<rparr>"
    unfolding path by (simp add: policy_for_def apiRateLimit_def)
  with pre have "status (fst (middleware example_env (example_runtime 1000) ?g
      (snd (rateLimit_run apiRateLimit (replicate 100 (?g, 0)) Map.empty)))) = 429"
    unfolding st
    by (intro over_budget_429 [where rcd = "\<lparr>count = 100, resetTime = 900000\<rparr>"])
       (simp_all add: example_runtime_def)
  with bot ok show ?thesis by blast
qed

section \<open>The size check and the path check\<close>

lemma parseInt_Some_nonempty: "parseInt cl = Some n \<Longrightarrow> cl \<noteq> []"
  by (auto simp: parseInt_def Let_def)

lemma malicious_path_iff:
  "malicious_path request \<longleftrightarrow>
     str_includes (pathname request) ''..''
     \<or> str_includes (pathname request) ''/etc/passwd''
     \<or> str_includes (pathname request) ''/windows/system32''
     \<or> str_includes (lower (pathname request)) ''<script''
     \<or> seq_match (lower (pathname request)) ''union'' ''select''
     \<or> str_includes (lower (pathname request)) ''eval(''"
  by (simp add: malicious_path_def some_test_def suspiciousUrlPatterns_def lower_def lower_char_def)

text \<open>
  Claim C2, as amended. The limiter is consulted first and the bot check comes before the
  size check. A request whose content-length header parses to more than 10 MiB is answered
  with status 413 when it is not a preflight, the limiter lets it pass (creating or raising
  the client's counter) and the bot check does not block it, whatever its path: the size
  check comes before the path check.
\<close>

theorem oversized_body_413:
  assumes "hget (req_headers request) ''content-length'' = Some cl"
    and "parseInt cl = Some n" and "10 * 1024 * 1024 < n"
    and "\<not> is_preflight request"
    and "fst (rateLimit (policy_for (pathname request)) request (clock_limit rt) st) = None"
    and "\<not> bot_blocked request"
  shows "fst (middleware e rt request st) = text_response ''Request Too Large'' 413
         \<and> status (fst (middleware e rt request st)) = 413
         \<and> fst (snd (middleware e rt request st)) =
             snd (rateLimit (policy_for (pathname request)) request (clock_limit rt) st)"
proof -
  have big: "oversized request"
    using assms(1-3) parseInt_Some_nonempty [OF assms(2)] by (simp add: oversized_def too_large_def)
  obtain st' where "rateLimit (policy_for (pathname request)) request (clock_limit rt) st = (None, st')"
    using assms(5) by (cases "rateLimit (policy_for (pathname request)) request (clock_limit rt) st") auto
  from middleware_passed [OF assms(4) this] this show ?thesis
    by (simp add: checks_oversized [OF assms(6) big] status_text_response)
qed

text \<open>
  Claim C4, as amended. A request whose path matches one of the malicious patterns is
  answered with status 400 when it is not a preflight, the limiter lets it pass, the bot check
  does not block it and its body is not oversized.
\<close>

theorem malicious_path_400:
  assumes "str_includes (pathname request) ''..''
     \<or> str_includes (pathname request) ''/etc/passwd''
     \<or> str_includes (pathname request) ''/windows/system32''
     \<or> str_includes (lower (pathname request)) ''<script''
     \<or> seq_match (lower (pathname request)) ''union'' ''select''
     \<or> str_includes (lower (pathname request)) ''eval(''"
    and "\<not> is_preflight request"
    and "fst (rateLimit (policy_for (pathname request)) request (clock_limit rt) st) = None"
    and "\<not> bot_blocked request" and "\<not> oversized request"
  shows "fst (middleware e rt request st) = text_response ''Bad Request'' 400
         \<and> status (fst (middleware e rt request st)) = 400"
proof -
  have bad: "malicious_path request" using assms(1) by (simp only: malicious_path_iff)
  obtain st' where "rateLimit (policy_for (pathname request)) request (clock_limit rt) st = (None, st')"
    using assms(3) by (cases "rateLimit (policy_for (pathname request)) request (clock_limit rt) st") auto
  from middleware_passed [OF assms(2) this] show ?thesis
    by (simp add: checks_malicious [OF assms(4,5) bad] status_text_response)
qed

lemma example_no_user_agent: "\<not> bot_blocked (example_request m p [(''content-length'', cl)])"
  "\<not> bot_blocked (example_request m p [])"
  by (simp_all add: bot_blocked_def isSuspicious_iff user_agent_def example_request_def hget_def
        lower_def lower_char_def)

lemma parseInt_11000000: "parseInt ''11000000'' = Some 11000000"
  by (simp add: parseInt_def Let_def is_ws_def is_digit_def digit_val_def digits_value_def)

theorem oversized_body_413_witness:
  "hget (req_headers (example_request ''POST'' ''/upload'' [(''content-length'', ''11000000'')]))
     ''content-length'' = Some ''11000000''
   \<and> parseInt ''11000000'' = Some 11000000
   \<and> status (fst (middleware example_env (example_runtime 0)
        (example_request ''POST'' ''/upload'' [(''content-length'', ''11000000'')]) Map.empty)) = 413"
proof -
  let ?r = "example_request ''POST'' ''/upload'' [(''content-length'', ''11000000'')]"
  have h: "hget (req_headers ?r) ''content-length'' = Some ''11000000''"
    by (simp add: example_request_def hget_def lower_def lower_char_def)
  have big: "10 * 1024 * 1024 < (11000000 :: int)" by simp
  have pre: "\<not> is_preflight ?r" by (simp add: is_preflight_def example_request_def)
  from oversized_body_413 [where e = example_env and rt = "example_runtime 0" and st = Map.empty,
      OF h parseInt_11000000 big pre example_fresh_limiter example_no_user_agent(1)]
  show ?thesis using h parseInt_11000000 by blast
qed

lemma general_budget_used_up:
  "snd (rateLimit_run generalRateLimit (replicate 60 (example_request m p hs, 0)) Map.empty) =
     Map.empty(rate_limit_key (getClientIP (example_request m p hs)) \<mapsto>
       \<lparr>count = 60, resetTime = 60000\<rparr>)"
  using budget_used [of 59 generalRateLimit Map.empty "example_request m p hs" 0]
  by (simp add: generalRateLimit_def)

text \<open>
  The claim as stated fails: the limiter and the bot check come before the size check. A
  client that has used up the 60 requests of the general policy is answered 429, and a
  scraper on an API path is answered 403, both with \<open>content-length: 11000000\<close>.
\<close>

theorem oversized_body_413_counterexample:
  "status (fst (middleware example_env (example_runtime 1000)
      (example_request ''POST'' ''/upload'' [(''content-length'', ''11000000'')])
      (snd (rateLimit_run generalRateLimit
         (replicate 60 (example_request ''POST'' ''/upload'' [(''content-length'', ''11000000'')], 0))
         Map.empty)))) = 429
   \<and> status (fst (middleware example_env (example_runtime 0)
      (example_request ''POST'' ''/api/users''
         [(''user-agent'', ''curl-scraper/1.0''), (''content-length'', ''11000000'')])
      Map.empty)) = 403"
proof -
  let ?r = "example_request ''POST'' ''/upload'' [(''content-length'', ''11000000'')]"
  let ?b = "example_request ''POST'' ''/api/users''
         [(''user-agent'', ''curl-scraper/1.0''), (''content-length'', ''11000000'')]"
  have pre: "\<not> is_preflight ?r" "\<not> is_preflight ?b"
    by (simp_all add: is_preflight_def example_request_def)
  have "maxRequests (policy_for (pathname ?r)) \<le> count \<lparr>count = 60, resetTime = 60000\<rparr>"
    by (simp add: example_request_def policy_for_def generalRateLimit_def)
  with pre(1) have "status (fst (middleware example_env (example_runtime 1000) ?r
      (snd (rateLimit_run generalRateLimit (replicate 60 (?r, 0)) Map.empty)))) = 429"
    unfolding general_budget_used_up
    by (intro over_budget_429 [where rcd = "\<lparr>count = 60, resetTime = 60000\<rparr>"])
       (simp_all add: example_runtime_def)
  moreover have "bot_blocked ?b"
    by (simp add: bot_blocked_def isSuspicious_iff user_agent_def example_request_def hget_def
          lower_def lower_char_def)
  then have "status (fst (middleware example_env (example_runtime 0) ?b Map.empty)) = 403"
    using gate_status [where e = example_env and rt = "example_runtime 0" and st = Map.empty,
            OF pre(2) example_fresh_limiter] by simp
  ultimately show ?thesis by simp
qed

theorem malicious_path_400_witness:
  "str_includes (pathname (example_request ''GET'' ''/../../etc/passwd'' [])) ''..''
   \<and> status (fst (middleware example_env (example_runtime 0)
        (example_request ''GET'' ''/../../etc/passwd'' []) Map.empty)) = 400"
proof -
  let ?r = "example_request ''GET'' ''/../../etc/passwd'' []"
  have bad: "str_includes (pathname ?r) ''..''" by (simp add: example_request_def)
  have pre: "\<not> is_preflight ?r" by (simp add: is_preflight_def example_request_def)
  have small: "\<not> oversized ?r"
    by (simp add: oversized_def too_large_def example_request_def hget_def)
  from malicious_path_400 [where e = example_env and rt = "example_runtime 0" and st = Map.empty,
      OF disjI1 [OF bad] pre example_fresh_limiter example_no_user_agent(2) small]
  show ?thesis using bad by blast
qed

text \<open>
  The claim as stated fails: the limiter comes before the path check. A client that has used
  up the 60 requests of the general policy is answered 429 on the path
  \<open>/../../etc/passwd\<close>.
\<close>

theorem malicious_path_400_counterexample:
  "status (fst (middleware example_env (example_runtime 1000)
      (example_request ''GET'' ''/../../etc/passwd'' [])
      (snd (rateLimit_run generalRateLimit
         (replicate 60 (example_request ''GET'' ''/../../etc/passwd'' [], 0)) Map.empty)))) = 429"
proof -
  let ?r = "example_request ''GET'' ''/../../etc/passwd'' []"
  have pre: "\<not> is_preflight ?r" by (simp add: is_preflight_def example_request_def)
  have "maxRequests (policy_for (pathname ?r)) \<le> count \<lparr>count = 60, resetTime = 60000\<rparr>"
    by (simp add: example_request_def policy_for_def generalRateLimit_def)
  with pre show ?thesis
    unfolding general_budget_used_up
    by (intro over_budget_429 [where rcd = "\<lparr>count = 60, resetTime = 60000\<rparr>"])
       (simp_all add: example_runtime_def)
qed

section \<open>The headers of a rejection\<close>

lemma security_header_names:
  "map (\<lambda>(k, v). lower k) getSecurityHeaders =
     [''content-security-policy'', ''x-content-type-options'', ''x-frame-options'',
      ''x-xss-protection'', ''referrer-policy'', ''permissions-policy'',
      ''strict-transport-security'', ''server'', ''x-powered-by'']"
  by (simp add: getSecurityHeaders_def lower_def lower_char_def)

lemma text_response_headers:
  "name \<in> set (map fst getSecurityHeaders) \<Longrightarrow>
   hget (resp_headers (text_response txt code)) name = None"
proof -
  assume "name \<in> set (map fst getSecurityHeaders)"
  then have "lower name \<in> set (map (\<lambda>(k, v). lower k) getSecurityHeaders)"
    by (force simp: image_iff)
  then have "lower name \<noteq> ''content-type''"
    unfolding security_header_names by auto
  then show ?thesis
    by (simp add: text_response_def hget_def hset_def lower_def lower_char_def)
qed

lemma too_many_headers:
  "name \<in> set (map fst getSecurityHeaders) \<Longrightarrow>
   hget (resp_headers (too_many config rcd now)) name = None"
proof -
  assume "name \<in> set (map fst getSecurityHeaders)"
  then have "lower name \<in> set (map (\<lambda>(k, v). lower k) getSecurityHeaders)"
    by (force simp: image_iff)
  then have "lower name \<notin> {''content-type'', ''retry-after'', ''x-ratelimit-limit'',
       ''x-ratelimit-remaining'', ''x-ratelimit-reset''}"
    unfolding security_header_names by auto
  then show ?thesis
    by (simp add: too_many_def hget_def hset_def lower_def lower_char_def)
qed

text \<open>
  Claim C3 does not hold of the code. Every response of the gate with status 429, 403, 413
  or 400 is built anew and carries none of the security headers that the gate has computed:
  not \<open>Content-Security-Policy\<close>, not \<open>X-Content-Type-Options\<close>, not \<open>X-Frame-Options\<close>, nor
  any other name of \<open>getSecurityHeaders\<close>.
\<close>

theorem rejection_without_security_headers:
  assumes "status (fst (middleware e rt request st)) \<in> {429, 403, 413, 400}"
    and "name \<in> set (map fst getSecurityHeaders)"
  shows "hget (resp_headers (fst (middleware e rt request st))) name = None"
proof (cases "is_preflight request")
  case True
  with middleware_preflight(2) [OF True, of e rt st] assms(1) show ?thesis by simp
next
  case False
  obtain r st' where rl: "rateLimit (policy_for (pathname request)) request (clock_limit rt) st = (r, st')"
    by (cases "rateLimit (policy_for (pathname request)) request (clock_limit rt) st")
  show ?thesis
  proof (cases r)
    case (Some response)
    from rateLimit_Some [OF rl [unfolded Some]] obtain rcd where
      "response = too_many (policy_for (pathname request)) rcd (clock_limit rt)" by blast
    with middleware_limited [OF False rl [unfolded Some], of e] show ?thesis
      by (simp add: too_many_headers [OF assms(2)])
  next
    case None
    note passed = middleware_passed [OF False rl [unfolded None], of e]
    have st: "status (fst (middleware e rt request st)) =
       (if bot_blocked request then 403 else if oversized request then 413
        else if malicious_path request then 400 else 200)"
      using gate_status [OF False, of rt st e] rl None by simp
    consider (bot) "bot_blocked request"
      | (big) "\<not> bot_blocked request" "oversized request"
      | (bad) "\<not> bot_blocked request" "\<not> oversized request" "malicious_path request"
      using st assms(1) by (auto split: if_splits)
    then show ?thesis
    proof cases
      case bot
      then show ?thesis using passed by (simp add: checks_bot text_response_headers [OF assms(2)])
    next
      case big
      then show ?thesis using passed by (simp add: checks_oversized text_response_headers [OF assms(2)])
    next
      case bad
      then show ?thesis using passed by (simp add: checks_malicious text_response_headers [OF assms(2)])
    qed
  qed
qed

theorem rejection_without_security_headers_witness:
  "status (fst (middleware example_env (example_runtime 0)
      (example_request ''GET'' ''/../../etc/passwd'' []) Map.empty)) = 400
   \<and> ''Content-Security-Policy'' \<in> set (map fst getSecurityHeaders)
   \<and> hget (resp_headers (fst (middleware example_env (example_runtime 0)
      (example_request ''GET'' ''/../../etc/passwd'' []) Map.empty))) ''Content-Security-Policy''
     = None"
proof -
  let ?r = "example_request ''GET'' ''/../../etc/passwd'' []"
  have pre: "\<not> is_preflight ?r" by (simp add: is_preflight_def example_request_def)
  have "\<not> oversized ?r"
    by (simp add: oversized_def too_large_def example_request_def hget_def)
  moreover have "malicious_path ?r"
    by (simp add: malicious_path_iff example_request_def)
  ultimately have st: "status (fst (middleware example_env (example_runtime 0) ?r Map.empty)) = 400"
    using gate_status [where e = example_env and rt = "example_runtime 0" and st = Map.empty,
            OF pre example_fresh_limiter] example_no_user_agent(2) [of "''GET''" "''/../../etc/passwd''"]
    by simp
  have name: "''Content-Security-Policy'' \<in> set (map fst getSecurityHeaders)"
    by (simp add: getSecurityHeaders_def)
  from st have "status (fst (middleware example_env (example_runtime 0) ?r Map.empty))
      \<in> {429, 403, 413, 400}" by simp
  from rejection_without_security_headers [OF this name] st name show ?thesis by blast
qed

end
